theory Spec2Isabelle
  imports Complex_Main "HOL-Library.Product_Lexorder"
begin

section \<open>Data model\<close>

text \<open>
  The metrics pipeline of \<open>FB_Hourly_Analysis.py\<close> (lines 16 to 94) as a function from
  the two loaded tables to the table that is written to the spreadsheet. A data frame is the
  list of its rows, a row a record of its columns. Floating-point columns are modelled as
  exact rationals, integer columns as unbounded integers, a missing cell (NaN) of a column
  of the spend file that can hold one as \<open>None\<close>; the cells of the revenue files are
  taken to be present. Strings are ASCII.
\<close>

datatype error = ValueError | ZeroDivisionError

text \<open>A row of the concatenated revenue files (line 19).\<close>

record revenue_record =
  rev_campid :: int
  rev_hour :: int
  rev_estimated_earnings :: rat
  rev_clicks :: rat

text \<open>A row of the spend file as loaded (line 22).\<close>

record spend_record =
  ad_set_name :: string
  time_of_day :: string
  amount_spent :: "rat option"
  results :: "rat option"

text \<open>
  A row of \<open>spend_data\<close> after lines 25 and 26 added the columns \<open>campid\<close> (a float
  column: NaN where the pattern did not match) and \<open>hour\<close> (an integer column).
\<close>

record spend_data_row =
  sd_ad_set_name :: string
  sd_amount_spent :: "rat option"
  sd_results :: "rat option"
  sd_campid :: "int option"
  sd_hour :: int

text \<open>A row of \<open>spend_cleaned\<close> (lines 27 to 30, and again after line 43).\<close>

record spend_cleaned_row =
  sc_campid :: int
  sc_hour :: int
  sc_hourly_spend :: rat
  sc_hourly_results :: rat

text \<open>A row of \<open>revenue_filtered\<close> after the aggregation of line 37.\<close>

record revenue_agg_row =
  ra_campid :: int
  ra_hour :: int
  ra_estimated_earnings :: rat
  ra_total_clicks :: rat

text \<open>
  A row of \<open>merged_data\<close>: after the inner merge (line 49), after the campaign names were
  joined in (line 59), and with the derived columns (lines 62 to 82).
\<close>

record merged_row =
  campid :: int
  hour :: int
  estimated_earnings :: rat
  total_clicks :: rat
  hourly_spend :: rat
  hourly_results :: rat

record named_row = merged_row +
  campaign_name :: "string option"

record metrics_row = named_row +
  hourly_revenue :: rat
  hourly_clicks :: rat
  hourly_rpc :: rat
  hourly_cpr :: rat
  profit :: rat
  roi :: rat
  profit_loss :: string

section \<open>Spend cleaning (lines 25 to 30)\<close>

definition is_digit :: "char \<Rightarrow> bool" where
  "is_digit c = (c \<in> set ''0123456789'')"

definition digit_val :: "char \<Rightarrow> nat" where
  "digit_val c = of_char c - 48"

definition digits_to_nat :: "string \<Rightarrow> nat" where
  "digits_to_nat ds = foldl (\<lambda>n c. 10 * n + digit_val c) 0 ds"

text \<open>
  The pattern \<open>\((\d+)\)\<close> tried at the start of a string: an opening parenthesis, the
  longest run of digits (not empty), a closing parenthesis. A shorter run is followed by a
  digit, so backtracking finds nothing more.
\<close>

definition match_campid :: "string \<Rightarrow> string option" where
  "match_campid s =
     (case s of
        [] \<Rightarrow> None
      | c # cs \<Rightarrow>
          if c = CHR ''(''
          then (let ds = takeWhile is_digit cs
                in if ds \<noteq> [] \<and> take 1 (dropWhile is_digit cs) = '')'' then Some ds else None)
          else None)"

text \<open>\<open>str.extract\<close> searches: the leftmost position where the pattern matches.\<close>

fun extract_campid :: "string \<Rightarrow> string option" where
  "extract_campid [] = None"
| "extract_campid (c # cs) =
     (case match_campid (c # cs) of
        Some ds \<Rightarrow> Some ds
      | None \<Rightarrow> extract_campid cs)"

text \<open>The pattern \<open>(\d+):\<close> tried at the start of a string.\<close>

definition match_hour :: "string \<Rightarrow> string option" where
  "match_hour s =
     (let ds = takeWhile is_digit s
      in if ds \<noteq> [] \<and> take 1 (dropWhile is_digit s) = '':'' then Some ds else None)"

fun extract_hour :: "string \<Rightarrow> string option" where
  "extract_hour [] = None"
| "extract_hour (c # cs) =
     (case match_hour (c # cs) of
        Some ds \<Rightarrow> Some ds
      | None \<Rightarrow> extract_hour cs)"

text \<open>
  Lines 25 and 26. The campaign id goes through \<open>astype(float)\<close>, which keeps a failed
  match as NaN; the hour goes through \<open>astype(int)\<close>, which raises \<open>ValueError\<close> on the
  NaN of a failed match, whatever row it is in.
\<close>

fun load_spend_data :: "spend_record list \<Rightarrow> error + spend_data_row list" where
  "load_spend_data [] = Inr []"
| "load_spend_data (r # rs) =
     (case extract_hour (time_of_day r) of
        None \<Rightarrow> Inl ValueError
      | Some h \<Rightarrow>
          (case load_spend_data rs of
             Inl e \<Rightarrow> Inl e
           | Inr sd \<Rightarrow>
               Inr (\<lparr>sd_ad_set_name = ad_set_name r,
                      sd_amount_spent = amount_spent r,
                      sd_results = results r,
                      sd_campid = map_option (\<lambda>ds. int (digits_to_nat ds))
                                    (extract_campid (ad_set_name r)),
                      sd_hour = int (digits_to_nat h)\<rparr> # sd)))"

text \<open>
  Lines 27 to 30: the four columns, \<open>dropna()\<close> (a row with a missing cell in any of them
  goes), and the campaign id as an integer.
\<close>

definition dropna_row :: "spend_data_row \<Rightarrow> spend_cleaned_row option" where
  "dropna_row r =
     (case sd_campid r of
        None \<Rightarrow> None
      | Some c \<Rightarrow>
          (case sd_amount_spent r of
             None \<Rightarrow> None
           | Some s \<Rightarrow>
               (case sd_results r of
                  None \<Rightarrow> None
                | Some v \<Rightarrow>
                    Some \<lparr>sc_campid = c, sc_hour = sd_hour r,
                          sc_hourly_spend = s, sc_hourly_results = v\<rparr>)))"

definition spend_cleaned :: "spend_data_row list \<Rightarrow> spend_cleaned_row list" where
  "spend_cleaned sd = List.map_filter dropna_row sd"

section \<open>Filtering and aggregation (lines 33 to 46)\<close>

text \<open>\<open>drop_duplicates()\<close> and \<open>unique()\<close>: the first occurrence of each value stays.\<close>

fun drop_duplicates_from :: "'a list \<Rightarrow> 'a list \<Rightarrow> 'a list" where
  "drop_duplicates_from seen [] = []"
| "drop_duplicates_from seen (x # xs) =
     (if x \<in> set seen then drop_duplicates_from seen xs
      else x # drop_duplicates_from (x # seen) xs)"

definition drop_duplicates :: "'a list \<Rightarrow> 'a list" where
  "drop_duplicates xs = drop_duplicates_from [] xs"

definition matching_campaigns :: "spend_cleaned_row list \<Rightarrow> int list" where
  "matching_campaigns sc = drop_duplicates (map sc_campid sc)"

definition revenue_filter :: "revenue_record list \<Rightarrow> int list \<Rightarrow> revenue_record list" where
  "revenue_filter revenue_data cs = filter (\<lambda>r. rev_campid r \<in> set cs) revenue_data"

text \<open>
  \<open>groupby(['campid', 'hour'])\<close> sorts the groups by their keys (its default); each group's
  columns are summed.
\<close>

definition group_keys :: "(int \<times> int) list \<Rightarrow> (int \<times> int) list" where
  "group_keys ks = sort (remdups ks)"

definition rev_key :: "revenue_record \<Rightarrow> int \<times> int" where
  "rev_key r = (rev_campid r, rev_hour r)"

definition sc_key :: "spend_cleaned_row \<Rightarrow> int \<times> int" where
  "sc_key r = (sc_campid r, sc_hour r)"

definition ra_key :: "revenue_agg_row \<Rightarrow> int \<times> int" where
  "ra_key r = (ra_campid r, ra_hour r)"

definition aggregate_revenue :: "revenue_record list \<Rightarrow> revenue_agg_row list" where
  "aggregate_revenue rows =
     map (\<lambda>k. \<lparr>ra_campid = fst k, ra_hour = snd k,
                ra_estimated_earnings =
                  sum_list (map rev_estimated_earnings (filter (\<lambda>r. rev_key r = k) rows)),
                ra_total_clicks =
                  sum_list (map rev_clicks (filter (\<lambda>r. rev_key r = k) rows))\<rparr>)
         (group_keys (map rev_key rows))"

definition aggregate_spend :: "spend_cleaned_row list \<Rightarrow> spend_cleaned_row list" where
  "aggregate_spend rows =
     map (\<lambda>k. \<lparr>sc_campid = fst k, sc_hour = snd k,
                sc_hourly_spend =
                  sum_list (map sc_hourly_spend (filter (\<lambda>r. sc_key r = k) rows)),
                sc_hourly_results =
                  sum_list (map sc_hourly_results (filter (\<lambda>r. sc_key r = k) rows))\<rparr>)
         (group_keys (map sc_key rows))"

section \<open>Merging (lines 49 to 59)\<close>

text \<open>
  The inner merge on \<open>(campid, hour)\<close>: the rows of the left table in their order, each
  with every row of the right table that has its key.
\<close>

definition inner_merge :: "revenue_agg_row list \<Rightarrow> spend_cleaned_row list \<Rightarrow> merged_row list" where
  "inner_merge left right =
     concat (map (\<lambda>l. map (\<lambda>r. \<lparr>campid = ra_campid l, hour = ra_hour l,
                                    estimated_earnings = ra_estimated_earnings l,
                                    total_clicks = ra_total_clicks l,
                                    hourly_spend = sc_hourly_spend r,
                                    hourly_results = sc_hourly_results r\<rparr>)
                          (filter (\<lambda>r. sc_key r = ra_key l) right))
                 left)"

definition merged_data :: "revenue_record list \<Rightarrow> spend_data_row list \<Rightarrow> merged_row list" where
  "merged_data revenue_data spend_data =
     inner_merge
       (aggregate_revenue
          (revenue_filter revenue_data (matching_campaigns (spend_cleaned spend_data))))
       (aggregate_spend (spend_cleaned spend_data))"

text \<open>
  Line 57: \<open>drop_duplicates()\<close> over the two columns \<open>campid\<close> and \<open>Ad set name\<close> of the
  whole of \<open>spend_data\<close>, rows that \<open>dropna()\<close> removed included.
\<close>

definition campaign_name_mapping :: "spend_data_row list \<Rightarrow> (int option \<times> string) list" where
  "campaign_name_mapping spend_data =
     drop_duplicates (map (\<lambda>r. (sd_campid r, sd_ad_set_name r)) spend_data)"

definition with_name :: "merged_row \<Rightarrow> string option \<Rightarrow> named_row" where
  "with_name m n =
     \<lparr>campid = campid m, hour = hour m, estimated_earnings = estimated_earnings m,
      total_clicks = total_clicks m, hourly_spend = hourly_spend m,
      hourly_results = hourly_results m, campaign_name = n\<rparr>"

text \<open>
  Line 59, the left merge on \<open>campid\<close>: every row of the left table in its order, once for
  each row of the mapping with its campaign id, or once with no name when there is none.
\<close>

definition add_campaign_names :: "merged_row list \<Rightarrow> (int option \<times> string) list \<Rightarrow> named_row list" where
  "add_campaign_names merged mapping =
     concat (map (\<lambda>m. case filter (\<lambda>p. fst p = Some (campid m)) mapping of
                         [] \<Rightarrow> [with_name m None]
                       | ps \<Rightarrow> map (\<lambda>p. with_name m (Some (snd p))) ps)
                 merged)"

definition named_data :: "revenue_record list \<Rightarrow> spend_data_row list \<Rightarrow> named_row list" where
  "named_data revenue_data spend_data =
     add_campaign_names (merged_data revenue_data spend_data) (campaign_name_mapping spend_data)"

section \<open>Derived metrics (lines 62 to 87)\<close>

text \<open>
  \<open>groupby('campid')[col].diff()\<close>: walking down the table, each row's value minus the
  value of the last row seen with the same campaign id, NaN when there is none.
  \<open>prev\<close> holds, for each campaign id seen so far, the value of its latest row.
\<close>

fun group_diff :: "(int \<rightharpoonup> rat) \<Rightarrow> (int \<times> rat) list \<Rightarrow> rat option list" where
  "group_diff prev [] = []"
| "group_diff prev ((c, v) # kvs) =
     (case prev c of None \<Rightarrow> None | Some p \<Rightarrow> Some (v - p)) # group_diff (prev(c \<mapsto> v)) kvs"

text \<open>\<open>.fillna(col)\<close>: a NaN becomes the value of the column in the same row.\<close>

definition diff_fillna :: "(int \<times> rat) list \<Rightarrow> rat list" where
  "diff_fillna kvs =
     map (\<lambda>(d, kv). case d of None \<Rightarrow> snd kv | Some x \<Rightarrow> x) (zip (group_diff Map.empty kvs) kvs)"

definition hourly_revenue_col :: "'a merged_row_scheme list \<Rightarrow> rat list" where
  "hourly_revenue_col rows = diff_fillna (map (\<lambda>r. (campid r, estimated_earnings r)) rows)"

definition hourly_clicks_col :: "'a merged_row_scheme list \<Rightarrow> rat list" where
  "hourly_clicks_col rows = diff_fillna (map (\<lambda>r. (campid r, total_clicks r)) rows)"

text \<open>Python's division raises on a zero divisor.\<close>

definition py_div :: "rat \<Rightarrow> rat \<Rightarrow> error + rat" where
  "py_div a b = (if b = 0 then Inl ZeroDivisionError else Inr (a / b))"

definition bind :: "error + 'a \<Rightarrow> ('a \<Rightarrow> error + 'b) \<Rightarrow> error + 'b" where
  "bind x f = (case x of Inl e \<Rightarrow> Inl e | Inr v \<Rightarrow> f v)"

text \<open>The three row functions of lines 67, 72 and 78.\<close>

definition rpc_of :: "rat \<Rightarrow> rat \<Rightarrow> error + rat" where
  "rpc_of hrev hclk = (if hclk > 0 then py_div hrev hclk else Inr 0)"

definition cpr_of :: "rat \<Rightarrow> rat \<Rightarrow> error + rat" where
  "cpr_of spend res = (if res > 0 then py_div spend res else Inr 0)"

definition roi_of :: "rat \<Rightarrow> rat \<Rightarrow> error + rat" where
  "roi_of prof spend = (if spend > 0 then bind (py_div prof spend) (\<lambda>q. Inr (q * 100)) else Inr 0)"

text \<open>Line 81.\<close>

definition classify :: "rat \<Rightarrow> string" where
  "classify x = (if x > 0 then ''Profit'' else if x < 0 then ''Loss'' else ''Break-Even'')"

text \<open>
  Lines 66 to 82 for one row, given its \<open>hourly_revenue\<close> and \<open>hourly_clicks\<close>. The
  source computes column after column; the columns of a row depend on that row only, and
  the only error is the one of a division.
\<close>

definition derive_row :: "named_row \<Rightarrow> rat \<Rightarrow> rat \<Rightarrow> error + metrics_row" where
  "derive_row r hrev hclk =
     bind (rpc_of hrev hclk) (\<lambda>rpc.
     bind (cpr_of (hourly_spend r) (hourly_results r)) (\<lambda>cpr.
     bind (roi_of (hrev - hourly_spend r) (hourly_spend r)) (\<lambda>ro.
       Inr \<lparr>campid = campid r, hour = hour r, estimated_earnings = estimated_earnings r,
            total_clicks = total_clicks r, hourly_spend = hourly_spend r,
            hourly_results = hourly_results r, campaign_name = campaign_name r,
            hourly_revenue = hrev, hourly_clicks = hclk, hourly_rpc = rpc, hourly_cpr = cpr,
            profit = hrev - hourly_spend r, roi = ro,
            profit_loss = classify (hrev - hourly_spend r)\<rparr>)))"

fun derive_rows :: "(named_row \<times> rat \<times> rat) list \<Rightarrow> error + metrics_row list" where
  "derive_rows [] = Inr []"
| "derive_rows ((r, hrev, hclk) # xs) =
     bind (derive_row r hrev hclk) (\<lambda>m. bind (derive_rows xs) (\<lambda>ms. Inr (m # ms)))"

definition derived_data :: "named_row list \<Rightarrow> error + metrics_row list" where
  "derived_data rows =
     derive_rows (zip rows (zip (hourly_revenue_col rows) (hourly_clicks_col rows)))"

text \<open>
  Line 87, \<open>round(2)\<close> on the ten numeric columns: to the nearest hundredth, a tie to the
  even one.
\<close>

definition round_half_even :: "rat \<Rightarrow> int" where
  "round_half_even x =
     (let f = \<lfloor>x\<rfloor>; d = x - of_int f
      in if d < 1 / 2 then f else if 1 / 2 < d then f + 1 else if even f then f else f + 1)"

definition round2 :: "rat \<Rightarrow> rat" where
  "round2 x = of_int (round_half_even (x * 100)) / 100"

definition round_row :: "metrics_row \<Rightarrow> metrics_row" where
  "round_row r =
     r\<lparr>hourly_spend := round2 (hourly_spend r), hourly_results := round2 (hourly_results r),
       estimated_earnings := round2 (estimated_earnings r),
       total_clicks := round2 (total_clicks r),
       hourly_revenue := round2 (hourly_revenue r), hourly_clicks := round2 (hourly_clicks r),
       hourly_rpc := round2 (hourly_rpc r), hourly_cpr := round2 (hourly_cpr r),
       profit := round2 (profit r), roi := round2 (roi r)\<rparr>"

section \<open>The pipeline (lines 16 to 94)\<close>

definition exact_metrics :: "revenue_record list \<Rightarrow> spend_record list \<Rightarrow> error + metrics_row list" where
  "exact_metrics revenue_data spend =
     bind (load_spend_data spend) (\<lambda>spend_data. derived_data (named_data revenue_data spend_data))"

definition metrics_pipeline :: "revenue_record list \<Rightarrow> spend_record list \<Rightarrow> error + metrics_row list" where
  "metrics_pipeline revenue_data spend =
     bind (exact_metrics revenue_data spend) (\<lambda>rows. Inr (map round_row rows))"

definition row_key :: "'a merged_row_scheme \<Rightarrow> int \<times> int" where
  "row_key r = (campid r, hour r)"

text \<open>The row that lines 66 to 82 give when no division raises.\<close>

definition derived_row :: "named_row \<Rightarrow> rat \<Rightarrow> rat \<Rightarrow> metrics_row" where
  "derived_row r hrev hclk =
     \<lparr>campid = campid r, hour = hour r, estimated_earnings = estimated_earnings r,
      total_clicks = total_clicks r, hourly_spend = hourly_spend r,
      hourly_results = hourly_results r, campaign_name = campaign_name r,
      hourly_revenue = hrev, hourly_clicks = hclk,
      hourly_rpc = (if hclk > 0 then hrev / hclk else 0),
      hourly_cpr = (if hourly_results r > 0 then hourly_spend r / hourly_results r else 0),
      profit = hrev - hourly_spend r,
      roi = (if hourly_spend r > 0 then (hrev - hourly_spend r) / hourly_spend r * 100 else 0),
      profit_loss = classify (hrev - hourly_spend r)\<rparr>"

text \<open>
  What rounding to two decimal places gives: \<open>y\<close> is a whole number of hundredths, and it
  is no further than half a hundredth from \<open>x\<close>.
\<close>

definition rounded_2dp :: "rat \<Rightarrow> rat \<Rightarrow> bool" where
  "rounded_2dp x y \<longleftrightarrow> y * 100 = of_int \<lfloor>y * 100\<rfloor> \<and> \<bar>y - x\<bar> \<le> 1 / 200"

section \<open>Properties\<close>

lemma bind_Inr_iff:
  "bind x f = Inr y \<longleftrightarrow> (\<exists>v. x = Inr v \<and> f v = Inr y)"
  by (cases x) (simp_all add: bind_def)

subsection \<open>The derived columns never raise\<close>

lemma rpc_of_eq: "rpc_of a b = Inr (if b > 0 then a / b else 0)"
  by (simp add: rpc_of_def py_div_def)

lemma cpr_of_eq: "cpr_of a b = Inr (if b > 0 then a / b else 0)"
  by (simp add: cpr_of_def py_div_def)

lemma roi_of_eq: "roi_of a b = Inr (if b > 0 then a / b * 100 else 0)"
  by (simp add: roi_of_def py_div_def bind_def)

lemma derive_row_eq: "derive_row r a b = Inr (derived_row r a b)"
  by (simp add: derive_row_def rpc_of_eq cpr_of_eq roi_of_eq bind_def derived_row_def)

lemma derive_rows_eq: "derive_rows xs = Inr (map (\<lambda>(r, a, b). derived_row r a b) xs)"
  by (induction xs rule: derive_rows.induct) (simp_all add: derive_row_eq bind_def)

lemma length_group_diff: "length (group_diff prev kvs) = length kvs"
  by (induction kvs arbitrary: prev) auto

lemma length_diff_fillna: "length (diff_fillna kvs) = length kvs"
  by (simp add: diff_fillna_def length_group_diff)

lemma group_diff_first:
  "i < length kvs \<Longrightarrow> (\<forall>j<i. fst (kvs ! j) \<noteq> fst (kvs ! i)) \<Longrightarrow>
   group_diff prev kvs ! i =
     (case prev (fst (kvs ! i)) of None \<Rightarrow> None | Some p \<Rightarrow> Some (snd (kvs ! i) - p))"
proof (induction kvs arbitrary: prev i)
  case Nil
  then show ?case by simp
next
  case (Cons x kvs)
  obtain c v where x: "x = (c, v)" by (cases x)
  show ?case
  proof (cases i)
    case 0
    then show ?thesis by (simp add: x split: option.split)
  next
    case (Suc i')
    from Cons.prems Suc have len: "i' < length kvs" by simp
    from Cons.prems(2) Suc x have ne0: "c \<noteq> fst (kvs ! i')" by fastforce
    have rest: "\<forall>j<i'. fst (kvs ! j) \<noteq> fst (kvs ! i')"
    proof (intro allI impI)
      fix j assume "j < i'"
      then have "Suc j < i" using Suc by simp
      with Cons.prems(2) have "fst ((x # kvs) ! Suc j) \<noteq> fst ((x # kvs) ! i)" by blast
      then show "fst (kvs ! j) \<noteq> fst (kvs ! i')" using Suc by simp
    qed
    have "group_diff (prev(c \<mapsto> v)) kvs ! i' =
      (case (prev(c \<mapsto> v)) (fst (kvs ! i')) of None \<Rightarrow> None
       | Some p \<Rightarrow> Some (snd (kvs ! i') - p))"
      by (rule Cons.IH[OF len rest])
    with ne0 Suc x show ?thesis by (simp split: option.split)
  qed
qed

lemma group_diff_later:
  "j < i \<Longrightarrow> i < length kvs \<Longrightarrow> fst (kvs ! j) = fst (kvs ! i) \<Longrightarrow>
   (\<forall>k. j < k \<and> k < i \<longrightarrow> fst (kvs ! k) \<noteq> fst (kvs ! i)) \<Longrightarrow>
   group_diff prev kvs ! i = Some (snd (kvs ! i) - snd (kvs ! j))"
proof (induction kvs arbitrary: prev i j)
  case Nil
  then show ?case by simp
next
  case (Cons x kvs)
  obtain c v where x: "x = (c, v)" by (cases x)
  from Cons.prems(1) obtain i' where i: "i = Suc i'" by (cases i) simp_all
  from Cons.prems(2) i have len: "i' < length kvs" by simp
  show ?case
  proof (cases j)
    case 0
    have rest: "\<forall>k<i'. fst (kvs ! k) \<noteq> fst (kvs ! i')"
    proof (intro allI impI)
      fix k assume "k < i'"
      then have "j < Suc k \<and> Suc k < i" using 0 i by simp
      with Cons.prems(4) have "fst ((x # kvs) ! Suc k) \<noteq> fst ((x # kvs) ! i)" by blast
      then show "fst (kvs ! k) \<noteq> fst (kvs ! i')" using i by simp
    qed
    from Cons.prems(3) 0 i x have c: "fst (kvs ! i') = c" by simp
    have "group_diff (prev(c \<mapsto> v)) kvs ! i' =
      (case (prev(c \<mapsto> v)) (fst (kvs ! i')) of None \<Rightarrow> None
       | Some p \<Rightarrow> Some (snd (kvs ! i') - p))"
      by (rule group_diff_first[OF len rest])
    with c 0 i x show ?thesis by simp
  next
    case (Suc j')
    have lt: "j' < i'" using Cons.prems(1) Suc i by simp
    have eq: "fst (kvs ! j') = fst (kvs ! i')" using Cons.prems(3) Suc i by simp
    have rest: "\<forall>k. j' < k \<and> k < i' \<longrightarrow> fst (kvs ! k) \<noteq> fst (kvs ! i')"
    proof (intro allI impI)
      fix k assume "j' < k \<and> k < i'"
      then have "j < Suc k \<and> Suc k < i" using Suc i by simp
      with Cons.prems(4) have "fst ((x # kvs) ! Suc k) \<noteq> fst ((x # kvs) ! i)" by blast
      then show "fst (kvs ! k) \<noteq> fst (kvs ! i')" using i by simp
    qed
    have "group_diff (prev(c \<mapsto> v)) kvs ! i' = Some (snd (kvs ! i') - snd (kvs ! j'))"
      by (rule Cons.IH[OF lt len eq rest])
    with Suc i x show ?thesis by simp
  qed
qed

lemma diff_fillna_first:
  assumes "i < length kvs" and "\<forall>j<i. fst (kvs ! j) \<noteq> fst (kvs ! i)"
  shows "diff_fillna kvs ! i = snd (kvs ! i)"
  using assms group_diff_first[OF assms, of Map.empty]
  by (simp add: diff_fillna_def length_group_diff)

lemma diff_fillna_later:
  assumes "j < i" and "i < length kvs" and "fst (kvs ! j) = fst (kvs ! i)"
    and "\<forall>k. j < k \<and> k < i \<longrightarrow> fst (kvs ! k) \<noteq> fst (kvs ! i)"
  shows "diff_fillna kvs ! i = snd (kvs ! i) - snd (kvs ! j)"
  using assms(2) group_diff_later[OF assms, of Map.empty]
  by (simp add: diff_fillna_def length_group_diff)

subsection \<open>Keys of the tables\<close>

lemma set_drop_duplicates_from: "set (drop_duplicates_from seen xs) = set xs - set seen"
  by (induction seen xs rule: drop_duplicates_from.induct) auto

lemma set_drop_duplicates: "set (drop_duplicates xs) = set xs"
  by (simp add: drop_duplicates_def set_drop_duplicates_from)

lemma set_group_keys: "set (group_keys ks) = set ks"
  by (simp add: group_keys_def)

lemma sorted_group_keys: "sorted (group_keys ks)"
  by (simp add: group_keys_def)

lemma distinct_group_keys: "distinct (group_keys ks)"
  by (simp add: group_keys_def)

lemma keys_aggregate_revenue: "map ra_key (aggregate_revenue rows) = group_keys (map rev_key rows)"
  by (simp add: aggregate_revenue_def ra_key_def comp_def)

lemma keys_aggregate_spend: "map sc_key (aggregate_spend rows) = group_keys (map sc_key rows)"
  by (simp add: aggregate_spend_def sc_key_def comp_def)

lemma set_keys_inner_merge:
  "set (map row_key (inner_merge left right)) = set (map ra_key left) \<inter> set (map sc_key right)"
  by (auto simp: inner_merge_def row_key_def ra_key_def image_iff) metis+

lemma filter_key_distinct:
  "distinct (map f xs) \<Longrightarrow> filter (\<lambda>r. f r = k) xs = (if k \<in> f ` set xs then [the (find (\<lambda>r. f r = k) xs)] else [])"
  by (induction xs) (auto simp: image_iff)

lemma keys_inner_merge:
  assumes "distinct (map sc_key right)"
  shows "map row_key (inner_merge left right) = filter (\<lambda>k. k \<in> set (map sc_key right)) (map ra_key left)"
proof (induction left)
  case Nil
  then show ?case by (simp add: inner_merge_def)
next
  case (Cons l left)
  have "inner_merge (l # left) right =
     map (\<lambda>r. \<lparr>campid = ra_campid l, hour = ra_hour l,
                 estimated_earnings = ra_estimated_earnings l,
                 total_clicks = ra_total_clicks l,
                 hourly_spend = sc_hourly_spend r,
                 hourly_results = sc_hourly_results r\<rparr>)
        (filter (\<lambda>r. sc_key r = ra_key l) right) @ inner_merge left right"
    by (simp add: inner_merge_def)
  then show ?case
    using Cons filter_key_distinct[OF assms, of "ra_key l"]
    by (simp add: row_key_def ra_key_def comp_def)
qed

lemma sorted_keys_merged_data: "sorted (map row_key (merged_data revenue_data spend_data))"
  unfolding merged_data_def
  by (simp add: keys_inner_merge keys_aggregate_spend keys_aggregate_revenue
      distinct_group_keys sorted_group_keys sorted_filter[where f = id, simplified])

lemma distinct_keys_merged_data: "distinct (map row_key (merged_data revenue_data spend_data))"
  unfolding merged_data_def
  by (simp add: keys_inner_merge keys_aggregate_spend keys_aggregate_revenue
      distinct_group_keys)

lemma set_keys_add_campaign_names:
  "set (map row_key (add_campaign_names merged mapping)) = set (map row_key merged)"
proof -
  have one: "set (map row_key (case filter (\<lambda>p. fst p = Some (campid m)) mapping of
                         [] \<Rightarrow> [with_name m None]
                       | ps \<Rightarrow> map (\<lambda>p. with_name m (Some (snd p))) ps)) = {row_key m}" for m
    by (cases "filter (\<lambda>p. fst p = Some (campid m)) mapping")
       (auto simp: row_key_def with_name_def)
  have "set (map row_key (add_campaign_names merged mapping)) =
        (\<Union>m\<in>set merged. set (map row_key (case filter (\<lambda>p. fst p = Some (campid m)) mapping of
                         [] \<Rightarrow> [with_name m None]
                       | ps \<Rightarrow> map (\<lambda>p. with_name m (Some (snd p))) ps)))"
    by (simp add: add_campaign_names_def map_concat comp_def)
  also have "\<dots> = (\<Union>m\<in>set merged. {row_key m})" by (simp only: one)
  finally show ?thesis by auto
qed

lemma row_key_derived_row: "row_key (derived_row r a b) = row_key r"
  by (simp add: row_key_def derived_row_def)

lemma row_key_round_row: "row_key (round_row r) = row_key r"
  by (simp add: row_key_def round_row_def)

lemma length_cols:
  "length (hourly_revenue_col rows) = length rows" "length (hourly_clicks_col rows) = length rows"
  by (simp_all add: hourly_revenue_col_def hourly_clicks_col_def length_diff_fillna)

lemma derived_data_eq:
  "derived_data rows =
     Inr (map (\<lambda>(r, a, b). derived_row r a b)
            (zip rows (zip (hourly_revenue_col rows) (hourly_clicks_col rows))))"
  by (simp add: derived_data_def derive_rows_eq)

lemma length_derived:
  "derived_data rows = Inr ms \<Longrightarrow> length ms = length rows"
  by (auto simp: derived_data_eq length_cols)

lemma nth_derived:
  "derived_data rows = Inr ms \<Longrightarrow> i < length rows \<Longrightarrow>
   ms ! i = derived_row (rows ! i) (hourly_revenue_col rows ! i) (hourly_clicks_col rows ! i)"
  by (auto simp: derived_data_eq length_cols)

lemma keys_derived:
  "derived_data rows = Inr ms \<Longrightarrow> map row_key ms = map row_key rows"
  by (rule nth_equalityI) (simp_all add: length_derived nth_derived row_key_derived_row)

lemma exact_metrics_Inr_iff:
  "exact_metrics revenue_data spend = Inr ms \<longleftrightarrow>
   (\<exists>sd. load_spend_data spend = Inr sd \<and> derived_data (named_data revenue_data sd) = Inr ms)"
  by (simp add: exact_metrics_def bind_Inr_iff)

lemma metrics_pipeline_Inr_iff:
  "metrics_pipeline revenue_data spend = Inr out \<longleftrightarrow>
   (\<exists>ms. exact_metrics revenue_data spend = Inr ms \<and> out = map round_row ms)"
  by (auto simp: metrics_pipeline_def bind_Inr_iff)

subsection \<open>The inner join\<close>

lemma keys_named_data:
  "set (map row_key (named_data revenue_data sd)) =
   set (map ra_key (aggregate_revenue
          (revenue_filter revenue_data (matching_campaigns (spend_cleaned sd))))) \<inter>
   set (map sc_key (aggregate_spend (spend_cleaned sd)))"
  by (simp only: named_data_def set_keys_add_campaign_names merged_data_def set_keys_inner_merge)

lemma filtered_keys:
  assumes "(c, h) \<in> set (map sc_key (aggregate_spend sc))"
  shows "(c, h) \<in> set (map ra_key (aggregate_revenue (revenue_filter revenue_data (matching_campaigns sc))))
     \<longleftrightarrow> (c, h) \<in> set (map ra_key (aggregate_revenue revenue_data))"
proof -
  from assms have "(c, h) \<in> sc_key ` set sc"
    by (simp add: keys_aggregate_spend set_group_keys)
  then have "c \<in> set (matching_campaigns sc)"
    by (auto simp: matching_campaigns_def set_drop_duplicates sc_key_def)
  then show ?thesis
    by (auto simp: keys_aggregate_revenue set_group_keys revenue_filter_def rev_key_def)
qed

text \<open>
  Claim C5. The output has a row keyed \<open>(c, h)\<close> if and only if the aggregated revenue
  table has a row for \<open>(c, h)\<close> and the cleaned and aggregated spend table has one; a key
  on one side only is absent. The aggregated revenue table is that of line 37 (the revenue
  rows of the spend campaigns); with the aggregation of all revenue rows in its place the
  same holds.
\<close>

theorem inner_join_keys:
  assumes "load_spend_data spend = Inr sd" and "metrics_pipeline revenue_data spend = Inr out"
  shows "((c, h) \<in> set (map row_key out) \<longleftrightarrow>
            (c, h) \<in> set (map ra_key (aggregate_revenue
               (revenue_filter revenue_data (matching_campaigns (spend_cleaned sd))))) \<and>
            (c, h) \<in> set (map sc_key (aggregate_spend (spend_cleaned sd)))) \<and>
         ((c, h) \<in> set (map row_key out) \<longleftrightarrow>
            (c, h) \<in> set (map ra_key (aggregate_revenue revenue_data)) \<and>
            (c, h) \<in> set (map sc_key (aggregate_spend (spend_cleaned sd))))"
proof -
  from assms(2) obtain ms where ms: "exact_metrics revenue_data spend = Inr ms"
    and out: "out = map round_row ms"
    by (auto simp: metrics_pipeline_Inr_iff)
  from ms assms(1) have d: "derived_data (named_data revenue_data sd) = Inr ms"
    by (auto simp: exact_metrics_Inr_iff)
  have "map row_key out = map row_key ms"
    by (simp add: out comp_def row_key_round_row)
  also have "\<dots> = map row_key (named_data revenue_data sd)"
    by (rule keys_derived[OF d])
  finally have "set (map row_key out) = set (map row_key (named_data revenue_data sd))"
    by simp
  then have first: "(c, h) \<in> set (map row_key out) \<longleftrightarrow>
            (c, h) \<in> set (map ra_key (aggregate_revenue
               (revenue_filter revenue_data (matching_campaigns (spend_cleaned sd))))) \<and>
            (c, h) \<in> set (map sc_key (aggregate_spend (spend_cleaned sd)))"
    by (simp only: keys_named_data Int_iff)
  with filtered_keys[of c h "spend_cleaned sd" revenue_data] show ?thesis by blast
qed

theorem inner_join_keys_witness:
  "\<exists>sd out.
     load_spend_data
       [\<lparr>ad_set_name = ''Set (12345)'', time_of_day = ''10:00'',
          amount_spent = Some 50, results = Some 5\<rparr>,
        \<lparr>ad_set_name = ''Set (12345)'', time_of_day = ''11:00'',
          amount_spent = Some 80, results = Some 8\<rparr>] = Inr sd \<and>
     metrics_pipeline
       [\<lparr>rev_campid = 12345, rev_hour = 10, rev_estimated_earnings = 500, rev_clicks = 10\<rparr>,
        \<lparr>rev_campid = 12345, rev_hour = 12, rev_estimated_earnings = 900, rev_clicks = 30\<rparr>,
        \<lparr>rev_campid = 777, rev_hour = 10, rev_estimated_earnings = 5, rev_clicks = 1\<rparr>]
       [\<lparr>ad_set_name = ''Set (12345)'', time_of_day = ''10:00'',
          amount_spent = Some 50, results = Some 5\<rparr>,
        \<lparr>ad_set_name = ''Set (12345)'', time_of_day = ''11:00'',
          amount_spent = Some 80, results = Some 8\<rparr>] = Inr out \<and>
     (12345, 10) \<in> set (map sc_key (aggregate_spend (spend_cleaned sd))) \<and>
     (12345, 10) \<in> set (map row_key out) \<and>
     (12345, 12) \<notin> set (map sc_key (aggregate_spend (spend_cleaned sd))) \<and>
     (12345, 12) \<notin> set (map row_key out)"
proof -
  let ?rev = "[\<lparr>rev_campid = 12345, rev_hour = 10, rev_estimated_earnings = 500, rev_clicks = 10\<rparr>,
        \<lparr>rev_campid = 12345, rev_hour = 12, rev_estimated_earnings = 900, rev_clicks = 30\<rparr>,
        \<lparr>rev_campid = 777, rev_hour = 10, rev_estimated_earnings = 5, rev_clicks = 1\<rparr>]"
  let ?sp = "[\<lparr>ad_set_name = ''Set (12345)'', time_of_day = ''10:00'',
          amount_spent = Some 50, results = Some 5\<rparr>,
        \<lparr>ad_set_name = ''Set (12345)'', time_of_day = ''11:00'',
          amount_spent = Some 80, results = Some 8\<rparr>]"
  let ?sd = "[\<lparr>sd_ad_set_name = ''Set (12345)'', sd_amount_spent = Some 50,
         sd_results = Some 5, sd_campid = Some 12345, sd_hour = 10\<rparr>,
      \<lparr>sd_ad_set_name = ''Set (12345)'', sd_amount_spent = Some 80,
         sd_results = Some 8, sd_campid = Some 12345, sd_hour = 11\<rparr>]"
  let ?out = "[\<lparr>campid = 12345, hour = 10, estimated_earnings = 500,
         total_clicks = 10, hourly_spend = 50, hourly_results = 5,
         campaign_name = Some ''Set (12345)'', hourly_revenue = 500,
         hourly_clicks = 10, hourly_rpc = 50, hourly_cpr = 10, profit = 450,
         roi = 900, profit_loss = ''Profit''\<rparr>]"
  have l: "load_spend_data ?sp = Inr ?sd" by code_simp
  have p: "metrics_pipeline ?rev ?sp = Inr ?out" by code_simp
  have r: "(12345, 10) \<in> set (map ra_key (aggregate_revenue ?rev))" by code_simp
  have s: "(12345, 10) \<in> set (map sc_key (aggregate_spend (spend_cleaned ?sd)))" by code_simp
  have s': "(12345, 12) \<notin> set (map sc_key (aggregate_spend (spend_cleaned ?sd)))" by code_simp
  from inner_join_keys[OF l p, of 12345 10] r s
  have a: "(12345, 10) \<in> set (map row_key ?out)" by blast
  from inner_join_keys[OF l p, of 12345 12] s'
  have b: "(12345, 12) \<notin> set (map row_key ?out)" by blast
  from l p s a s' b show ?thesis by blast
qed

subsection \<open>Differencing\<close>

lemma nth_exact_metrics:
  assumes "exact_metrics revenue_data spend = Inr ms"
  shows "\<exists>rows. length rows = length ms \<and> (\<forall>i<length ms.
      ms ! i = derived_row (rows ! i) (hourly_revenue_col rows ! i) (hourly_clicks_col rows ! i))"
proof -
  from assms obtain sd where d: "derived_data (named_data revenue_data sd) = Inr ms"
    by (auto simp: exact_metrics_Inr_iff)
  show ?thesis
    by (rule exI[of _ "named_data revenue_data sd"])
       (simp add: length_derived[OF d] nth_derived[OF d])
qed

lemma derived_row_fields:
  "campid (derived_row r a b) = campid r"
  "estimated_earnings (derived_row r a b) = estimated_earnings r"
  "total_clicks (derived_row r a b) = total_clicks r"
  "hourly_revenue (derived_row r a b) = a"
  "hourly_clicks (derived_row r a b) = b"
  by (simp_all add: derived_row_def)

lemma exact_metrics_diffs:
  assumes "exact_metrics revenue_data spend = Inr ms" and "i < length ms"
  shows "((\<forall>j<i. campid (ms ! j) \<noteq> campid (ms ! i)) \<longrightarrow>
            hourly_revenue (ms ! i) = estimated_earnings (ms ! i) \<and>
            hourly_clicks (ms ! i) = total_clicks (ms ! i)) \<and>
         (j < i \<and> campid (ms ! j) = campid (ms ! i) \<and>
          (\<forall>k. j < k \<and> k < i \<longrightarrow> campid (ms ! k) \<noteq> campid (ms ! i)) \<longrightarrow>
            hourly_revenue (ms ! i) = estimated_earnings (ms ! i) - estimated_earnings (ms ! j) \<and>
            hourly_clicks (ms ! i) = total_clicks (ms ! i) - total_clicks (ms ! j))"
proof -
  from nth_exact_metrics[OF assms(1)] obtain rows where len: "length rows = length ms"
    and nth: "\<And>i. i < length ms \<Longrightarrow>
      ms ! i = derived_row (rows ! i) (hourly_revenue_col rows ! i) (hourly_clicks_col rows ! i)"
    by blast
  let ?e = "map (\<lambda>r. (campid r, estimated_earnings r)) rows"
  let ?t = "map (\<lambda>r. (campid r, total_clicks r)) rows"
  have camp: "campid (ms ! n) = campid (rows ! n)" if "n < length ms" for n
    using that by (simp add: nth derived_row_fields)
  have il: "i < length rows" using assms(2) len by simp
  have first: "hourly_revenue (ms ! i) = estimated_earnings (ms ! i) \<and>
            hourly_clicks (ms ! i) = total_clicks (ms ! i)"
    if h: "\<forall>j<i. campid (ms ! j) \<noteq> campid (ms ! i)"
  proof -
    have ne: "\<forall>j<i. campid (rows ! j) \<noteq> campid (rows ! i)"
      using h camp assms(2) by auto
    have "diff_fillna ?e ! i = snd (?e ! i)"
      by (rule diff_fillna_first) (use il ne in auto)
    moreover have "diff_fillna ?t ! i = snd (?t ! i)"
      by (rule diff_fillna_first) (use il ne in auto)
    ultimately show ?thesis
      using il assms(2)
      by (simp add: nth derived_row_fields hourly_revenue_col_def hourly_clicks_col_def)
  qed
  have later: "hourly_revenue (ms ! i) = estimated_earnings (ms ! i) - estimated_earnings (ms ! j) \<and>
            hourly_clicks (ms ! i) = total_clicks (ms ! i) - total_clicks (ms ! j)"
    if h: "j < i \<and> campid (ms ! j) = campid (ms ! i) \<and>
          (\<forall>k. j < k \<and> k < i \<longrightarrow> campid (ms ! k) \<noteq> campid (ms ! i))"
  proof -
    from h have ji: "j < i" by simp
    then have jl: "j < length ms" using assms(2) by simp
    have eq: "campid (rows ! j) = campid (rows ! i)"
      using h camp assms(2) jl by simp
    have ne: "\<forall>k. j < k \<and> k < i \<longrightarrow> campid (rows ! k) \<noteq> campid (rows ! i)"
      using h camp assms(2) by auto
    have "diff_fillna ?e ! i = snd (?e ! i) - snd (?e ! j)"
      by (rule diff_fillna_later) (use ji il eq ne in auto)
    moreover have "diff_fillna ?t ! i = snd (?t ! i) - snd (?t ! j)"
      by (rule diff_fillna_later) (use ji il eq ne in auto)
    ultimately show ?thesis
      using il ji jl assms(2) len
      by (simp add: nth derived_row_fields hourly_revenue_col_def hourly_clicks_col_def)
  qed
  from first later show ?thesis by blast
qed

text \<open>
  Claim C3. In the merged table, the hourly revenue of a campaign's first row (no earlier row
  of the table has its campaign id) is that row's aggregated earnings, and the hourly revenue
  of a later row is its earnings minus the earnings of the nearest earlier row of the same
  campaign; hourly clicks come from total clicks the same way. Cumulative earnings
  100, 150, 200 of one campaign give 100, 50, 50.
\<close>

theorem hourly_differencing:
  assumes "exact_metrics revenue_data spend = Inr ms" and "i < length ms"
  shows "((\<forall>j<i. campid (ms ! j) \<noteq> campid (ms ! i)) \<longrightarrow>
            hourly_revenue (ms ! i) = estimated_earnings (ms ! i) \<and>
            hourly_clicks (ms ! i) = total_clicks (ms ! i)) \<and>
         (j < i \<and> campid (ms ! j) = campid (ms ! i) \<and>
          (\<forall>k. j < k \<and> k < i \<longrightarrow> campid (ms ! k) \<noteq> campid (ms ! i)) \<longrightarrow>
            hourly_revenue (ms ! i) = estimated_earnings (ms ! i) - estimated_earnings (ms ! j) \<and>
            hourly_clicks (ms ! i) = total_clicks (ms ! i) - total_clicks (ms ! j)) \<and>
         diff_fillna [(c, 100), (c, 150), (c, 200)] = [100, 50, 50]"
proof -
  have "diff_fillna [(c, 100), (c, 150), (c, 200)] = [100, 50, 50]"
    by (simp add: diff_fillna_def)
  with exact_metrics_diffs[OF assms, of j] show ?thesis by blast
qed

theorem hourly_differencing_witness:
  "\<exists>ms. exact_metrics
     [\<lparr>rev_campid = 12345, rev_hour = 10, rev_estimated_earnings = 500, rev_clicks = 10\<rparr>,
      \<lparr>rev_campid = 12345, rev_hour = 11, rev_estimated_earnings = 800, rev_clicks = 25\<rparr>]
     [\<lparr>ad_set_name = ''Set (12345)'', time_of_day = ''10:00'',
        amount_spent = Some 50, results = Some 5\<rparr>,
      \<lparr>ad_set_name = ''Set (12345)'', time_of_day = ''11:00'',
        amount_spent = Some 80, results = Some 8\<rparr>] = Inr ms \<and>
     1 < length ms \<and> campid (ms ! 0) = campid (ms ! 1) \<and>
     hourly_revenue (ms ! 0) = estimated_earnings (ms ! 0) \<and>
     hourly_revenue (ms ! 1) = estimated_earnings (ms ! 1) - estimated_earnings (ms ! 0) \<and>
     hourly_clicks (ms ! 1) = total_clicks (ms ! 1) - total_clicks (ms ! 0) \<and>
     hourly_revenue (ms ! 1) = 300 \<and> hourly_clicks (ms ! 1) = 15"
proof -
  let ?ms = "[\<lparr>campid = 12345, hour = 10, estimated_earnings = 500, total_clicks = 10,
            hourly_spend = 50, hourly_results = 5, campaign_name = Some ''Set (12345)'',
            hourly_revenue = 500, hourly_clicks = 10, hourly_rpc = 50, hourly_cpr = 10,
            profit = 450, roi = 900, profit_loss = ''Profit''\<rparr>,
          \<lparr>campid = 12345, hour = 11, estimated_earnings = 800, total_clicks = 25,
            hourly_spend = 80, hourly_results = 8, campaign_name = Some ''Set (12345)'',
            hourly_revenue = 300, hourly_clicks = 15, hourly_rpc = 20, hourly_cpr = 10,
            profit = 220, roi = 275, profit_loss = ''Profit''\<rparr>] :: metrics_row list"
  have e: "exact_metrics
     [\<lparr>rev_campid = 12345, rev_hour = 10, rev_estimated_earnings = 500, rev_clicks = 10\<rparr>,
      \<lparr>rev_campid = 12345, rev_hour = 11, rev_estimated_earnings = 800, rev_clicks = 25\<rparr>]
     [\<lparr>ad_set_name = ''Set (12345)'', time_of_day = ''10:00'',
        amount_spent = Some 50, results = Some 5\<rparr>,
      \<lparr>ad_set_name = ''Set (12345)'', time_of_day = ''11:00'',
        amount_spent = Some 80, results = Some 8\<rparr>] = Inr ?ms"
    by code_simp
  have i1: "1 < length ?ms" and i0: "0 < length ?ms" by simp_all
  from hourly_differencing[OF e i1, of 0 0]
  have later: "hourly_revenue (?ms ! 1) = estimated_earnings (?ms ! 1) - estimated_earnings (?ms ! 0) \<and>
        hourly_clicks (?ms ! 1) = total_clicks (?ms ! 1) - total_clicks (?ms ! 0)"
    by simp
  from hourly_differencing[OF e i0, of 0 0]
  have first: "hourly_revenue (?ms ! 0) = estimated_earnings (?ms ! 0)"
    by simp
  show ?thesis
    using e first later by (intro exI[of _ ?ms]) simp
qed

subsection \<open>The end-to-end scenario\<close>

text \<open>
  Claim C8. On the revenue rows (12345, 10, 500, 10) and (12345, 11, 800, 25) and the spend
  rows of ad set "Set (12345)" at "10:00" (spend 50, results 5) and at "11:00" (spend 80,
  results 8), the pipeline returns exactly two rows: hour 10 with hourly revenue 500, hourly
  clicks 10, RPC 50, CPR 10, profit 450, ROI 900, "Profit", and hour 11 with hourly revenue
  300, hourly clicks 15, RPC 20, CPR 10, profit 220, ROI 275, "Profit".
\<close>

theorem end_to_end_scenario:
  "metrics_pipeline
     [\<lparr>rev_campid = 12345, rev_hour = 10, rev_estimated_earnings = 500, rev_clicks = 10\<rparr>,
      \<lparr>rev_campid = 12345, rev_hour = 11, rev_estimated_earnings = 800, rev_clicks = 25\<rparr>]
     [\<lparr>ad_set_name = ''Set (12345)'', time_of_day = ''10:00'',
        amount_spent = Some 50, results = Some 5\<rparr>,
      \<lparr>ad_set_name = ''Set (12345)'', time_of_day = ''11:00'',
        amount_spent = Some 80, results = Some 8\<rparr>]
   = Inr [\<lparr>campid = 12345, hour = 10, estimated_earnings = 500, total_clicks = 10,
            hourly_spend = 50, hourly_results = 5, campaign_name = Some ''Set (12345)'',
            hourly_revenue = 500, hourly_clicks = 10, hourly_rpc = 50, hourly_cpr = 10,
            profit = 450, roi = 900, profit_loss = ''Profit''\<rparr>,
          \<lparr>campid = 12345, hour = 11, estimated_earnings = 800, total_clicks = 25,
            hourly_spend = 80, hourly_results = 8, campaign_name = Some ''Set (12345)'',
            hourly_revenue = 300, hourly_clicks = 15, hourly_rpc = 20, hourly_cpr = 10,
            profit = 220, roi = 275, profit_loss = ''Profit''\<rparr>]"
  by code_simp

subsection \<open>Classification and rounding\<close>

lemma round_row_fields:
  "profit_loss (round_row r) = profit_loss r"
  "campaign_name (round_row r) = campaign_name r"
  "hourly_spend (round_row r) = round2 (hourly_spend r)"
  "hourly_results (round_row r) = round2 (hourly_results r)"
  "estimated_earnings (round_row r) = round2 (estimated_earnings r)"
  "total_clicks (round_row r) = round2 (total_clicks r)"
  "hourly_revenue (round_row r) = round2 (hourly_revenue r)"
  "hourly_clicks (round_row r) = round2 (hourly_clicks r)"
  "hourly_rpc (round_row r) = round2 (hourly_rpc r)"
  "hourly_cpr (round_row r) = round2 (hourly_cpr r)"
  "profit (round_row r) = round2 (profit r)"
  "roi (round_row r) = round2 (roi r)"
  by (simp_all add: round_row_def)

lemma derived_row_metrics:
  "hourly_spend (derived_row r a b) = hourly_spend r"
  "hourly_results (derived_row r a b) = hourly_results r"
  "profit (derived_row r a b) = a - hourly_spend r"
  "profit_loss (derived_row r a b) = classify (a - hourly_spend r)"
  "hourly_rpc (derived_row r a b) = (if b > 0 then a / b else 0)"
  "hourly_cpr (derived_row r a b) =
     (if hourly_results r > 0 then hourly_spend r / hourly_results r else 0)"
  "roi (derived_row r a b) =
     (if hourly_spend r > 0 then (a - hourly_spend r) / hourly_spend r * 100 else 0)"
  by (simp_all add: derived_row_def)

lemma round2_example: "round2 (4 / 1000) = 0"
  by code_simp

lemma round_half_even_near:
  "\<bar>of_int (round_half_even y) - y\<bar> \<le> 1 / 2"
proof -
  have "of_int \<lfloor>y\<rfloor> \<le> y" and "y < of_int \<lfloor>y\<rfloor> + 1" by linarith+
  then show ?thesis
    by (auto simp: round_half_even_def Let_def)
qed

lemma round_half_even_tie:
  "\<bar>of_int (round_half_even y) - y\<bar> = 1 / 2 \<Longrightarrow> even (round_half_even y)"
proof -
  assume t: "\<bar>of_int (round_half_even y) - y\<bar> = 1 / 2"
  have "of_int \<lfloor>y\<rfloor> \<le> y" and "y < of_int \<lfloor>y\<rfloor> + 1" by linarith+
  with t show ?thesis
    by (auto simp: round_half_even_def Let_def split: if_splits)
qed

lemma round2_hundredths: "round2 x * 100 = of_int (round_half_even (x * 100))"
  by (simp add: round2_def)

lemma round2_near: "\<bar>round2 x - x\<bar> \<le> 1 / 200"
proof -
  have "\<bar>round2 x - x\<bar> = \<bar>of_int (round_half_even (x * 100)) - x * 100\<bar> / 100"
    by (simp add: round2_def field_simps abs_if)
  also have "\<dots> \<le> (1 / 2) / 100"
    using round_half_even_near[of "x * 100"] by (simp add: divide_right_mono)
  finally show ?thesis by simp
qed

lemma round2_rounded: "rounded_2dp x (round2 x)"
  unfolding rounded_2dp_def
proof (intro conjI)
  show "round2 x * 100 = of_int \<lfloor>round2 x * 100\<rfloor>"
    by (simp add: round2_hundredths)
  show "\<bar>round2 x - x\<bar> \<le> 1 / 200"
    by (rule round2_near)
qed

lemma round2_tie_even:
  "\<bar>round2 x - x\<bar> = 1 / 200 \<Longrightarrow> even (round_half_even (x * 100))"
proof -
  assume t: "\<bar>round2 x - x\<bar> = 1 / 200"
  have "\<bar>round2 x - x\<bar> = \<bar>of_int (round_half_even (x * 100)) - x * 100\<bar> / 100"
    by (simp add: round2_def field_simps abs_if)
  with t have "\<bar>of_int (round_half_even (x * 100)) - x * 100\<bar> = 1 / 2" by simp
  then show ?thesis by (rule round_half_even_tie)
qed

text \<open>
  Claim C4. The profit/loss label of every output row is computed from the exact profit
  (hourly revenue minus hourly spend, before any rounding): "Profit" when it is positive,
  "Loss" when it is negative, "Break-Even" otherwise; the ten numeric columns of the output
  are the exact values rounded to two decimals afterwards: each is a whole number of
  hundredths, no further than half a hundredth from the exact value. So a row whose exact
  profit is 0.004 is labelled "Profit" while its displayed profit is 0.00.
\<close>

theorem classify_before_round:
  assumes "metrics_pipeline revenue_data spend = Inr out" and "i < length out"
  shows "\<exists>ms. exact_metrics revenue_data spend = Inr ms \<and> length ms = length out \<and>
     profit (ms ! i) = hourly_revenue (ms ! i) - hourly_spend (ms ! i) \<and>
     profit_loss (out ! i) =
       (if profit (ms ! i) > 0 then ''Profit''
        else if profit (ms ! i) < 0 then ''Loss'' else ''Break-Even'') \<and>
     hourly_spend (out ! i) = round2 (hourly_spend (ms ! i)) \<and>
     hourly_results (out ! i) = round2 (hourly_results (ms ! i)) \<and>
     estimated_earnings (out ! i) = round2 (estimated_earnings (ms ! i)) \<and>
     total_clicks (out ! i) = round2 (total_clicks (ms ! i)) \<and>
     hourly_revenue (out ! i) = round2 (hourly_revenue (ms ! i)) \<and>
     hourly_clicks (out ! i) = round2 (hourly_clicks (ms ! i)) \<and>
     hourly_rpc (out ! i) = round2 (hourly_rpc (ms ! i)) \<and>
     hourly_cpr (out ! i) = round2 (hourly_cpr (ms ! i)) \<and>
     profit (out ! i) = round2 (profit (ms ! i)) \<and>
     roi (out ! i) = round2 (roi (ms ! i)) \<and>
     rounded_2dp (hourly_spend (ms ! i)) (hourly_spend (out ! i)) \<and>
     rounded_2dp (hourly_results (ms ! i)) (hourly_results (out ! i)) \<and>
     rounded_2dp (estimated_earnings (ms ! i)) (estimated_earnings (out ! i)) \<and>
     rounded_2dp (total_clicks (ms ! i)) (total_clicks (out ! i)) \<and>
     rounded_2dp (hourly_revenue (ms ! i)) (hourly_revenue (out ! i)) \<and>
     rounded_2dp (hourly_clicks (ms ! i)) (hourly_clicks (out ! i)) \<and>
     rounded_2dp (hourly_rpc (ms ! i)) (hourly_rpc (out ! i)) \<and>
     rounded_2dp (hourly_cpr (ms ! i)) (hourly_cpr (out ! i)) \<and>
     rounded_2dp (profit (ms ! i)) (profit (out ! i)) \<and>
     rounded_2dp (roi (ms ! i)) (roi (out ! i)) \<and>
     (profit (ms ! i) = 4 / 1000 \<longrightarrow>
        profit_loss (out ! i) = ''Profit'' \<and> profit (out ! i) = 0)"
proof -
  from assms(1) obtain ms where ms: "exact_metrics revenue_data spend = Inr ms"
    and out: "out = map round_row ms"
    by (auto simp: metrics_pipeline_Inr_iff)
  from assms(2) out have i: "i < length ms" by simp
  from nth_exact_metrics[OF ms] i obtain r a b where row: "ms ! i = derived_row r a b"
    by blast
  have p: "profit (ms ! i) = hourly_revenue (ms ! i) - hourly_spend (ms ! i)"
    by (simp add: row derived_row_metrics derived_row_fields)
  have c: "profit_loss (out ! i) =
       (if profit (ms ! i) > 0 then ''Profit''
        else if profit (ms ! i) < 0 then ''Loss'' else ''Break-Even'')"
    using i by (simp add: out round_row_fields row derived_row_metrics classify_def)
  have r: "profit (out ! i) = round2 (profit (ms ! i))"
    using i by (simp add: out round_row_fields)
  have e: "profit (ms ! i) = 4 / 1000 \<longrightarrow>
        profit_loss (out ! i) = ''Profit'' \<and> profit (out ! i) = 0"
  proof
    assume v: "profit (ms ! i) = 4 / 1000"
    from c have "profit_loss (out ! i) = ''Profit''" by (simp only: v) simp
    moreover from r have "profit (out ! i) = 0" by (simp only: v round2_example)
    ultimately show "profit_loss (out ! i) = ''Profit'' \<and> profit (out ! i) = 0" ..
  qed
  show ?thesis
    using ms i p c e by (intro exI[of _ ms]) (simp add: out round_row_fields round2_rounded)
qed

theorem classify_before_round_witness:
  "\<exists>ms out.
     exact_metrics
       [\<lparr>rev_campid = 1, rev_hour = 0, rev_estimated_earnings = 1004 / 1000, rev_clicks = 1\<rparr>]
       [\<lparr>ad_set_name = ''A (1)'', time_of_day = ''0:00'',
          amount_spent = Some 1, results = Some 1\<rparr>] = Inr ms \<and>
     metrics_pipeline
       [\<lparr>rev_campid = 1, rev_hour = 0, rev_estimated_earnings = 1004 / 1000, rev_clicks = 1\<rparr>]
       [\<lparr>ad_set_name = ''A (1)'', time_of_day = ''0:00'',
          amount_spent = Some 1, results = Some 1\<rparr>] = Inr out \<and>
     0 < length out \<and> profit (ms ! 0) = 4 / 1000 \<and>
     profit_loss (out ! 0) = ''Profit'' \<and> profit (out ! 0) = 0 \<and>
     estimated_earnings (ms ! 0) = 1004 / 1000 \<and> estimated_earnings (out ! 0) = 1"
proof -
  let ?rev = "[\<lparr>rev_campid = 1, rev_hour = 0, rev_estimated_earnings = 1004 / 1000, rev_clicks = 1\<rparr>]"
  let ?sp = "[\<lparr>ad_set_name = ''A (1)'', time_of_day = ''0:00'',
          amount_spent = Some 1, results = Some 1\<rparr>]"
  let ?ms = "[\<lparr>campid = 1, hour = 0, estimated_earnings = 1004 / 1000, total_clicks = 1,
         hourly_spend = 1, hourly_results = 1,
         campaign_name = Some ''A (1)'', hourly_revenue = 1004 / 1000,
         hourly_clicks = 1, hourly_rpc = 1004 / 1000, hourly_cpr = 1, profit = 4 / 1000,
         roi = 4 / 10, profit_loss = ''Profit''\<rparr>]"
  let ?out = "[\<lparr>campid = 1, hour = 0, estimated_earnings = 1, total_clicks = 1,
         hourly_spend = 1, hourly_results = 1,
         campaign_name = Some ''A (1)'', hourly_revenue = 1,
         hourly_clicks = 1, hourly_rpc = 1, hourly_cpr = 1, profit = 0,
         roi = 2 / 5, profit_loss = ''Profit''\<rparr>]"
  have e: "exact_metrics ?rev ?sp = Inr ?ms" by code_simp
  have p: "metrics_pipeline ?rev ?sp = Inr ?out" by code_simp
  have i: "0 < length ?out" by simp
  from classify_before_round[OF p i] e
  have "profit (?ms ! 0) = 4 / 1000 \<longrightarrow>
        profit_loss (?out ! 0) = ''Profit'' \<and> profit (?out ! 0) = 0"
    by auto
  then have "profit (?ms ! 0) = 4 / 1000 \<and>
        profit_loss (?out ! 0) = ''Profit'' \<and> profit (?out ! 0) = 0"
    by simp
  moreover have "estimated_earnings (?ms ! 0) = 1004 / 1000 \<and> estimated_earnings (?out ! 0) = 1"
    by simp
  ultimately show ?thesis using e p i by blast
qed

subsection \<open>Guarded divisions\<close>

lemma load_spend_data_error: "load_spend_data spend = Inl e \<Longrightarrow> e = ValueError"
  by (induction spend arbitrary: e) (auto split: option.splits sum.splits)

text \<open>
  Claim C6, as amended. The derivation of the metric columns never raises: it returns a row
  for every row of the merged table, and the pipeline never ends with a division by zero.
  In every row, before the final rounding, the revenue per click is hourly revenue divided
  by hourly clicks when hourly clicks are positive and 0 otherwise, the cost per result is
  hourly spend divided by hourly results when hourly results are positive and 0 otherwise,
  and the ROI is profit divided by hourly spend times 100 when hourly spend is positive and
  0 otherwise; the output row carries each of the three rounded to two decimals.
\<close>

theorem guarded_divisions:
  "(\<exists>ms. derived_data rows = Inr ms) \<and>
   metrics_pipeline revenue_data spend \<noteq> Inl ZeroDivisionError \<and>
   (metrics_pipeline revenue_data spend = Inr out \<and> i < length out \<longrightarrow>
     (\<exists>ms. exact_metrics revenue_data spend = Inr ms \<and> length ms = length out \<and>
        hourly_rpc (ms ! i) =
          (if hourly_clicks (ms ! i) > 0 then hourly_revenue (ms ! i) / hourly_clicks (ms ! i)
           else 0) \<and>
        hourly_cpr (ms ! i) =
          (if hourly_results (ms ! i) > 0 then hourly_spend (ms ! i) / hourly_results (ms ! i)
           else 0) \<and>
        roi (ms ! i) =
          (if hourly_spend (ms ! i) > 0 then profit (ms ! i) / hourly_spend (ms ! i) * 100
           else 0) \<and>
        hourly_rpc (out ! i) = round2 (hourly_rpc (ms ! i)) \<and>
        hourly_cpr (out ! i) = round2 (hourly_cpr (ms ! i)) \<and>
        roi (out ! i) = round2 (roi (ms ! i))))"
proof -
  have total: "\<exists>ms. derived_data rows = Inr ms"
    by (simp add: derived_data_eq)
  have noraise: "metrics_pipeline revenue_data spend \<noteq> Inl ZeroDivisionError"
  proof (cases "load_spend_data spend")
    case (Inl e)
    then have "e = ValueError" by (rule load_spend_data_error)
    with Inl show ?thesis
      by (simp add: metrics_pipeline_def exact_metrics_def bind_def)
  next
    case (Inr sd)
    then show ?thesis
      by (simp add: metrics_pipeline_def exact_metrics_def bind_def derived_data_eq)
  qed
  have rows: "\<exists>ms. exact_metrics revenue_data spend = Inr ms \<and> length ms = length out \<and>
        hourly_rpc (ms ! i) =
          (if hourly_clicks (ms ! i) > 0 then hourly_revenue (ms ! i) / hourly_clicks (ms ! i)
           else 0) \<and>
        hourly_cpr (ms ! i) =
          (if hourly_results (ms ! i) > 0 then hourly_spend (ms ! i) / hourly_results (ms ! i)
           else 0) \<and>
        roi (ms ! i) =
          (if hourly_spend (ms ! i) > 0 then profit (ms ! i) / hourly_spend (ms ! i) * 100
           else 0) \<and>
        hourly_rpc (out ! i) = round2 (hourly_rpc (ms ! i)) \<and>
        hourly_cpr (out ! i) = round2 (hourly_cpr (ms ! i)) \<and>
        roi (out ! i) = round2 (roi (ms ! i))"
    if h: "metrics_pipeline revenue_data spend = Inr out \<and> i < length out"
  proof -
    from h obtain ms where ms: "exact_metrics revenue_data spend = Inr ms"
      and out: "out = map round_row ms"
      by (auto simp: metrics_pipeline_Inr_iff)
    from h out have i: "i < length ms" by simp
    from nth_exact_metrics[OF ms] i obtain r a b where row: "ms ! i = derived_row r a b"
      by blast
    show ?thesis
      using ms i
      by (intro exI[of _ ms])
         (simp add: out round_row_fields row derived_row_metrics derived_row_fields)
  qed
  from total noraise rows show ?thesis by blast
qed

theorem guarded_divisions_witness:
  "\<exists>ms out.
     exact_metrics
       [\<lparr>rev_campid = 1, rev_hour = 0, rev_estimated_earnings = 1, rev_clicks = 3\<rparr>]
       [\<lparr>ad_set_name = ''A (1)'', time_of_day = ''0:00'',
          amount_spent = Some 1, results = Some 1\<rparr>] = Inr ms \<and>
     metrics_pipeline
       [\<lparr>rev_campid = 1, rev_hour = 0, rev_estimated_earnings = 1, rev_clicks = 3\<rparr>]
       [\<lparr>ad_set_name = ''A (1)'', time_of_day = ''0:00'',
          amount_spent = Some 1, results = Some 1\<rparr>] = Inr out \<and>
     0 < length out \<and>
     hourly_rpc (ms ! 0) = hourly_revenue (ms ! 0) / hourly_clicks (ms ! 0) \<and>
     hourly_rpc (ms ! 0) = 1 / 3 \<and>
     hourly_rpc (out ! 0) = round2 (1 / 3) \<and> hourly_rpc (out ! 0) = 33 / 100"
proof -
  let ?rev = "[\<lparr>rev_campid = 1, rev_hour = 0, rev_estimated_earnings = 1, rev_clicks = 3\<rparr>]"
  let ?sp = "[\<lparr>ad_set_name = ''A (1)'', time_of_day = ''0:00'',
          amount_spent = Some 1, results = Some 1\<rparr>]"
  let ?ms = "[\<lparr>campid = 1, hour = 0, estimated_earnings = 1, total_clicks = 3,
            hourly_spend = 1, hourly_results = 1, campaign_name = Some ''A (1)'',
            hourly_revenue = 1, hourly_clicks = 3, hourly_rpc = 1 / 3, hourly_cpr = 1,
            profit = 0, roi = 0, profit_loss = ''Break-Even''\<rparr>]"
  let ?out = "[\<lparr>campid = 1, hour = 0, estimated_earnings = 1, total_clicks = 3,
            hourly_spend = 1, hourly_results = 1, campaign_name = Some ''A (1)'',
            hourly_revenue = 1, hourly_clicks = 3, hourly_rpc = 33 / 100, hourly_cpr = 1,
            profit = 0, roi = 0, profit_loss = ''Break-Even''\<rparr>]"
  have e: "exact_metrics ?rev ?sp = Inr ?ms" by code_simp
  have p: "metrics_pipeline ?rev ?sp = Inr ?out" by code_simp
  have i: "0 < length ?out" by simp
  from guarded_divisions[of "[]" ?rev ?sp ?out 0] p i e
  have "hourly_rpc (?ms ! 0) =
          (if hourly_clicks (?ms ! 0) > 0 then hourly_revenue (?ms ! 0) / hourly_clicks (?ms ! 0)
           else 0) \<and>
        hourly_rpc (?out ! 0) = round2 (hourly_rpc (?ms ! 0))"
    by auto
  then have "hourly_rpc (?ms ! 0) = hourly_revenue (?ms ! 0) / hourly_clicks (?ms ! 0) \<and>
     hourly_rpc (?ms ! 0) = 1 / 3 \<and>
     hourly_rpc (?out ! 0) = round2 (1 / 3) \<and> hourly_rpc (?out ! 0) = 33 / 100"
    by simp
  with e p i show ?thesis by blast
qed

text \<open>
  Claim C6 as stated, of the output rows, fails once rounding changes a value: with
  earnings 1 and 3 clicks the output row has hourly revenue 1, hourly clicks 3 and a
  revenue per click of 0.33, which is not 1 / 3.
\<close>

theorem output_rpc_counterexample:
  "metrics_pipeline
     [\<lparr>rev_campid = 1, rev_hour = 0, rev_estimated_earnings = 1, rev_clicks = 3\<rparr>]
     [\<lparr>ad_set_name = ''A (1)'', time_of_day = ''0:00'',
        amount_spent = Some 1, results = Some 1\<rparr>]
   = Inr [\<lparr>campid = 1, hour = 0, estimated_earnings = 1, total_clicks = 3,
            hourly_spend = 1, hourly_results = 1, campaign_name = Some ''A (1)'',
            hourly_revenue = 1, hourly_clicks = 3, hourly_rpc = 33 / 100, hourly_cpr = 1,
            profit = 0, roi = 0, profit_loss = ''Break-Even''\<rparr>] \<and>
   (33 / 100 :: rat) \<noteq> 1 / 3"
  by code_simp

subsection \<open>Rows that the spend cleaner drops\<close>

lemma dropna_row_Some_iff:
  "dropna_row x = Some r \<longleftrightarrow>
   sd_campid x = Some (sc_campid r) \<and> sd_amount_spent x = Some (sc_hourly_spend r) \<and>
   sd_results x = Some (sc_hourly_results r) \<and> sd_hour x = sc_hour r"
  by (cases r) (auto simp: dropna_row_def split: option.splits)

lemma dropna_row_None_iff:
  "dropna_row x = None \<longleftrightarrow>
   sd_campid x = None \<or> sd_amount_spent x = None \<or> sd_results x = None"
  by (simp add: dropna_row_def split: option.splits)

lemma spend_cleaned_Cons:
  "spend_cleaned (x # xs) =
     (case dropna_row x of None \<Rightarrow> spend_cleaned xs | Some r \<Rightarrow> r # spend_cleaned xs)"
  by (simp add: spend_cleaned_def List.map_filter_simps split: option.split)

lemma spend_cleaned_Nil: "spend_cleaned [] = []"
  by (simp add: spend_cleaned_def List.map_filter_simps)

text \<open>
  Claim C10. When the spend file loads, the cleaned spend table holds exactly the rows of
  the spend file whose campaign id was extracted and whose amount spent and results are both
  present: a row with a missing amount spent or a missing result count is dropped like a row
  with no campaign id, and every row that stays has a value in each of campaign id, hour,
  hourly spend and hourly results, taken from its source row.
\<close>

theorem spend_cleaned_non_null:
  assumes "load_spend_data spend = Inr sd"
  shows "(r \<in> set (spend_cleaned sd) \<longleftrightarrow>
           (\<exists>x\<in>set spend. \<exists>c h.
              extract_campid (ad_set_name x) = Some c \<and>
              extract_hour (time_of_day x) = Some h \<and>
              amount_spent x = Some (sc_hourly_spend r) \<and>
              results x = Some (sc_hourly_results r) \<and>
              sc_campid r = int (digits_to_nat c) \<and> sc_hour r = int (digits_to_nat h))) \<and>
         length (spend_cleaned sd) =
           length (filter (\<lambda>x. extract_campid (ad_set_name x) \<noteq> None \<and>
                               amount_spent x \<noteq> None \<and> results x \<noteq> None) spend)"
proof -
  define P where "P = (\<lambda>x::spend_record. \<exists>c h.
              extract_campid (ad_set_name x) = Some c \<and>
              extract_hour (time_of_day x) = Some h \<and>
              amount_spent x = Some (sc_hourly_spend r) \<and>
              results x = Some (sc_hourly_results r) \<and>
              sc_campid r = int (digits_to_nat c) \<and> sc_hour r = int (digits_to_nat h))"
  define Q where "Q = (\<lambda>x::spend_record. extract_campid (ad_set_name x) \<noteq> None \<and>
                               amount_spent x \<noteq> None \<and> results x \<noteq> None)"
  have "(r \<in> set (spend_cleaned sd) \<longleftrightarrow> (\<exists>x\<in>set spend. P x)) \<and>
        length (spend_cleaned sd) = length (filter Q spend)"
    using assms
  proof (induction spend arbitrary: sd)
    case Nil
    then show ?case by (simp add: spend_cleaned_Nil)
  next
    case (Cons x xs)
    from Cons.prems obtain h sd' where h: "extract_hour (time_of_day x) = Some h"
      and sd': "load_spend_data xs = Inr sd'"
      and sd: "sd = \<lparr>sd_ad_set_name = ad_set_name x,
                      sd_amount_spent = amount_spent x,
                      sd_results = results x,
                      sd_campid = map_option (\<lambda>ds. int (digits_to_nat ds))
                                    (extract_campid (ad_set_name x)),
                      sd_hour = int (digits_to_nat h)\<rparr> # sd'"
      by (auto split: option.splits sum.splits)
    from Cons.IH[OF sd'] have IHm: "r \<in> set (spend_cleaned sd') \<longleftrightarrow> (\<exists>x\<in>set xs. P x)"
      and IHl: "length (spend_cleaned sd') = length (filter Q xs)"
      by blast+
    have split: "(\<exists>y\<in>set (x # xs). P y) \<longleftrightarrow> P x \<or> (\<exists>y\<in>set xs. P y)"
      by simp
    show ?case
    proof (cases "dropna_row (hd sd)")
      case None
      then have n: "extract_campid (ad_set_name x) = None \<or> amount_spent x = None \<or>
          results x = None"
        by (simp add: sd dropna_row_None_iff)
      from None have sc: "spend_cleaned sd = spend_cleaned sd'"
        by (simp add: sd spend_cleaned_Cons)
      from n have np: "\<not> P x" by (auto simp: P_def)
      from n have nq: "\<not> Q x" by (auto simp: Q_def)
      have mem: "r \<in> set (spend_cleaned sd) \<longleftrightarrow> (\<exists>x\<in>set (x # xs). P x)"
        unfolding sc using np IHm split by blast
      have len: "length (spend_cleaned sd) = length (filter Q (x # xs))"
        using nq by (simp add: sc IHl)
      from mem len show ?thesis ..
    next
      case (Some r')
      then have f: "\<exists>c. extract_campid (ad_set_name x) = Some c \<and>
            sc_campid r' = int (digits_to_nat c)"
        "amount_spent x = Some (sc_hourly_spend r')" "results x = Some (sc_hourly_results r')"
        "sc_hour r' = int (digits_to_nat h)"
        by (auto simp: sd dropna_row_Some_iff)
      have eq: "r = r' \<longleftrightarrow> sc_campid r = sc_campid r' \<and> sc_hour r = sc_hour r' \<and>
         sc_hourly_spend r = sc_hourly_spend r' \<and> sc_hourly_results r = sc_hourly_results r'"
        by (cases r; cases r') auto
      from Some have sc: "spend_cleaned sd = r' # spend_cleaned sd'"
        by (simp add: sd spend_cleaned_Cons)
      from f have q: "Q x" by (auto simp: Q_def)
      have px: "P x \<longleftrightarrow> r = r'"
        using f h by (auto simp: eq P_def)
      have "r \<in> set (spend_cleaned sd) \<longleftrightarrow> r = r' \<or> r \<in> set (spend_cleaned sd')"
        by (simp add: sc)
      with px IHm split have mem: "r \<in> set (spend_cleaned sd) \<longleftrightarrow> (\<exists>x\<in>set (x # xs). P x)"
        by blast
      have len: "length (spend_cleaned sd) = length (filter Q (x # xs))"
        using q by (simp add: sc IHl)
      from mem len show ?thesis ..
    qed
  qed
  then show ?thesis by (simp only: P_def Q_def)
qed

theorem spend_cleaned_non_null_witness:
  "\<exists>sd.
     load_spend_data
       [\<lparr>ad_set_name = ''A (1)'', time_of_day = ''0:00'', amount_spent = None, results = Some 1\<rparr>,
        \<lparr>ad_set_name = ''A (1)'', time_of_day = ''1:00'', amount_spent = Some 2, results = None\<rparr>,
        \<lparr>ad_set_name = ''no id'', time_of_day = ''2:00'', amount_spent = Some 3, results = Some 1\<rparr>,
        \<lparr>ad_set_name = ''A (1)'', time_of_day = ''3:00'', amount_spent = Some 4, results = Some 2\<rparr>]
       = Inr sd \<and>
     length (spend_cleaned sd) = 1 \<and>
     \<lparr>sc_campid = 1, sc_hour = 3, sc_hourly_spend = 4, sc_hourly_results = 2\<rparr>
       \<in> set (spend_cleaned sd) \<and>
     \<lparr>sc_campid = 1, sc_hour = 1, sc_hourly_spend = 2, sc_hourly_results = 0\<rparr>
       \<notin> set (spend_cleaned sd)"
proof -
  let ?sp = "[\<lparr>ad_set_name = ''A (1)'', time_of_day = ''0:00'', amount_spent = None, results = Some 1\<rparr>,
        \<lparr>ad_set_name = ''A (1)'', time_of_day = ''1:00'', amount_spent = Some 2, results = None\<rparr>,
        \<lparr>ad_set_name = ''no id'', time_of_day = ''2:00'', amount_spent = Some 3, results = Some 1\<rparr>,
        \<lparr>ad_set_name = ''A (1)'', time_of_day = ''3:00'', amount_spent = Some 4, results = Some 2\<rparr>]"
  let ?sd = "[\<lparr>sd_ad_set_name = ''A (1)'', sd_amount_spent = None,
         sd_results = Some 1, sd_campid = Some 1, sd_hour = 0\<rparr>,
      \<lparr>sd_ad_set_name = ''A (1)'', sd_amount_spent = Some 2,
         sd_results = None, sd_campid = Some 1, sd_hour = 1\<rparr>,
      \<lparr>sd_ad_set_name = ''no id'', sd_amount_spent = Some 3,
         sd_results = Some 1, sd_campid = None, sd_hour = 2\<rparr>,
      \<lparr>sd_ad_set_name = ''A (1)'', sd_amount_spent = Some 4,
         sd_results = Some 2, sd_campid = Some 1, sd_hour = 3\<rparr>]"
  let ?good = "\<lparr>sc_campid = 1, sc_hour = 3, sc_hourly_spend = 4, sc_hourly_results = 2\<rparr>"
  let ?bad = "\<lparr>sc_campid = 1, sc_hour = 1, sc_hourly_spend = 2, sc_hourly_results = 0\<rparr>"
  have l: "load_spend_data ?sp = Inr ?sd" by code_simp
  have n: "length (filter (\<lambda>x. extract_campid (ad_set_name x) \<noteq> None \<and>
                               amount_spent x \<noteq> None \<and> results x \<noteq> None) ?sp) = 1"
    by code_simp
  have c: "extract_campid ''A (1)'' = Some ''1''" by code_simp
  have h: "extract_hour ''3:00'' = Some ''3''" by code_simp
  have d1: "int (digits_to_nat ''1'') = 1" by code_simp
  have d3: "int (digits_to_nat ''3'') = 3" by code_simp
  from spend_cleaned_non_null[OF l, of ?good] n
  have len: "length (spend_cleaned ?sd) = 1" by simp
  have "\<exists>x\<in>set ?sp. \<exists>c h.
              extract_campid (ad_set_name x) = Some c \<and>
              extract_hour (time_of_day x) = Some h \<and>
              amount_spent x = Some (sc_hourly_spend ?good) \<and>
              results x = Some (sc_hourly_results ?good) \<and>
              sc_campid ?good = int (digits_to_nat c) \<and> sc_hour ?good = int (digits_to_nat h)"
    using c h d1 d3 by simp
  with spend_cleaned_non_null[OF l, of ?good]
  have good: "?good \<in> set (spend_cleaned ?sd)" by blast
  have "\<not> (\<exists>x\<in>set ?sp. \<exists>c h.
              extract_campid (ad_set_name x) = Some c \<and>
              extract_hour (time_of_day x) = Some h \<and>
              amount_spent x = Some (sc_hourly_spend ?bad) \<and>
              results x = Some (sc_hourly_results ?bad) \<and>
              sc_campid ?bad = int (digits_to_nat c) \<and> sc_hour ?bad = int (digits_to_nat h))"
    by simp
  with spend_cleaned_non_null[OF l, of ?bad]
  have bad: "?bad \<notin> set (spend_cleaned ?sd)" by blast
  from l len good bad show ?thesis by blast
qed

subsection \<open>When every campaign id has one ad set name\<close>

text \<open>
  The name mapping then has at most one row for each campaign id, the left merge of line 59
  adds no row, and the keys of the output are those of the inner merge: sorted and without
  repetition. The differencing then subtracts the row of the same campaign at the next
  lower hour, and the name of a campaign is that of its first row in the spend file.
\<close>

lemma add_campaign_names_single:
  assumes "\<forall>c. length (filter (\<lambda>p. fst p = Some c) mapping) \<le> 1"
  shows "map row_key (add_campaign_names merged mapping) = map row_key merged"
proof (induction merged)
  case Nil
  then show ?case by (simp add: add_campaign_names_def)
next
  case (Cons m merged)
  let ?ps = "filter (\<lambda>p. fst p = Some (campid m)) mapping"
  from assms have "length ?ps \<le> 1" by blast
  then have one: "map row_key (case ?ps of [] \<Rightarrow> [with_name m None]
                       | ps \<Rightarrow> map (\<lambda>p. with_name m (Some (snd p))) ps) = [row_key m]"
    by (cases ?ps) (auto simp: row_key_def with_name_def)
  have "add_campaign_names (m # merged) mapping =
      (case ?ps of [] \<Rightarrow> [with_name m None]
                       | ps \<Rightarrow> map (\<lambda>p. with_name m (Some (snd p))) ps)
      @ add_campaign_names merged mapping"
    by (simp add: add_campaign_names_def)
  then show ?case using one Cons.IH by simp
qed

lemma output_keys_when_names_unique:
  assumes "load_spend_data spend = Inr sd"
    and "metrics_pipeline revenue_data spend = Inr out"
    and "\<forall>c. length (filter (\<lambda>p. fst p = Some c) (campaign_name_mapping sd)) \<le> 1"
  shows "distinct (map row_key out) \<and> sorted (map row_key out)"
proof -
  from assms(2) obtain ms where ms: "exact_metrics revenue_data spend = Inr ms"
    and out: "out = map round_row ms"
    by (auto simp: metrics_pipeline_Inr_iff)
  from ms assms(1) have d: "derived_data (named_data revenue_data sd) = Inr ms"
    by (auto simp: exact_metrics_Inr_iff)
  have "map row_key out = map row_key ms"
    by (simp add: out comp_def row_key_round_row)
  also have "\<dots> = map row_key (named_data revenue_data sd)"
    by (rule keys_derived[OF d])
  also have "\<dots> = map row_key (merged_data revenue_data sd)"
    unfolding named_data_def by (rule add_campaign_names_single[OF assms(3)])
  finally show ?thesis
    by (simp only: distinct_keys_merged_data sorted_keys_merged_data simp_thms)
qed

lemma strict_sorted_nth_less:
  fixes xs :: "('a::linorder) list"
  assumes "sorted xs" "distinct xs" "a < b" "b < length xs"
  shows "xs ! a < xs ! b"
proof -
  have "xs ! a \<le> xs ! b" using assms by (simp add: sorted_nth_mono)
  moreover have "xs ! a \<noteq> xs ! b" using assms by (simp add: nth_eq_iff_index_eq)
  ultimately show ?thesis by simp
qed

lemma differencing_next_lower_hour:
  assumes l: "load_spend_data spend = Inr sd"
    and e: "exact_metrics revenue_data spend = Inr ms"
    and u: "\<forall>c. length (filter (\<lambda>p. fst p = Some c) (campaign_name_mapping sd)) \<le> 1"
    and i: "i < length ms" and j: "j < length ms"
    and c: "campid (ms ! j) = campid (ms ! i)"
    and h: "hour (ms ! j) < hour (ms ! i)"
    and n: "\<forall>k<length ms. campid (ms ! k) = campid (ms ! i) \<longrightarrow>
              \<not> (hour (ms ! j) < hour (ms ! k) \<and> hour (ms ! k) < hour (ms ! i))"
  shows "j < i \<and>
         hourly_revenue (ms ! i) = estimated_earnings (ms ! i) - estimated_earnings (ms ! j) \<and>
         hourly_clicks (ms ! i) = total_clicks (ms ! i) - total_clicks (ms ! j)"
proof -
  from e l have d: "derived_data (named_data revenue_data sd) = Inr ms"
    by (auto simp: exact_metrics_Inr_iff)
  have keys: "map row_key ms = map row_key (merged_data revenue_data sd)"
    using keys_derived[OF d] add_campaign_names_single[OF u]
    by (simp add: named_data_def)
  have srt: "sorted (map row_key ms)" and dst: "distinct (map row_key ms)"
    by (simp_all only: keys sorted_keys_merged_data distinct_keys_merged_data)
  have less: "row_key (ms ! a) < row_key (ms ! b)" if "a < b" "b < length ms" for a b
    using strict_sorted_nth_less[OF srt dst, of a b] that by simp
  have ji: "j < i"
  proof (rule ccontr)
    assume "\<not> j < i"
    then have "i = j \<or> i < j" by auto
    then show False
    proof
      assume "i = j" with h show False by simp
    next
      assume "i < j"
      from less[OF this j] c h show False
        by (simp add: row_key_def less_prod_def)
    qed
  qed
  have between: "campid (ms ! k) \<noteq> campid (ms ! i)" if "j < k \<and> k < i" for k
  proof
    assume ck: "campid (ms ! k) = campid (ms ! i)"
    from that i have kl: "k < length ms" by simp
    from less[of j k] that kl ck c have "hour (ms ! j) < hour (ms ! k)"
      by (simp add: row_key_def less_prod_def)
    moreover from less[of k i] that i ck have "hour (ms ! k) < hour (ms ! i)"
      by (simp add: row_key_def less_prod_def)
    ultimately show False using n kl ck by blast
  qed
  from exact_metrics_diffs[OF e i, of j] ji c between show ?thesis by blast
qed

lemma find_drop_duplicates_from:
  "find P (drop_duplicates_from seen xs) = find (\<lambda>x. P x \<and> x \<notin> set seen) xs"
proof (induction seen xs rule: drop_duplicates_from.induct)
  case (1 seen)
  then show ?case by simp
next
  case (2 seen x xs)
  show ?case
  proof (cases "x \<in> set seen")
    case True
    with 2 show ?thesis by simp
  next
    case False
    show ?thesis
    proof (cases "P x")
      case True
      with False show ?thesis by simp
    next
      case np: False
      have "find (\<lambda>y. P y \<and> y \<notin> set (x # seen)) xs = find (\<lambda>y. P y \<and> y \<notin> set seen) xs"
        using np by (intro find_cong) auto
      with 2 False np show ?thesis by simp
    qed
  qed
qed

lemma find_drop_duplicates: "find P (drop_duplicates xs) = find P xs"
  by (simp add: drop_duplicates_def find_drop_duplicates_from)

lemma find_map_option: "find P (map f xs) = map_option f (find (\<lambda>x. P (f x)) xs)"
  by (induction xs) simp_all

lemma first_name_of_campaign:
  "find (\<lambda>p. fst p = Some c) (campaign_name_mapping sd) =
   map_option (\<lambda>r. (sd_campid r, sd_ad_set_name r)) (find (\<lambda>r. sd_campid r = Some c) sd)"
  by (simp add: campaign_name_mapping_def find_drop_duplicates find_map_option)

subsection \<open>An hour label that does not parse\<close>

text \<open>
  Claim C2 says that a spend row whose time of day has no integer before a colon is dropped
  without an error. The conversion of the hour column to integers (line 26) raises on such a
  row instead, and the whole run ends there; a row whose ad set name has no campaign id is
  dropped, as the campaign id column is converted to floats first.
\<close>

theorem malformed_hour_raises:
  "load_spend_data
     [\<lparr>ad_set_name = ''Set (1)'', time_of_day = ''10:00'', amount_spent = Some 1, results = Some 1\<rparr>,
      \<lparr>ad_set_name = ''Set (1)'', time_of_day = ''noon'', amount_spent = Some 1, results = Some 1\<rparr>]
   = Inl ValueError \<and>
   metrics_pipeline
     [\<lparr>rev_campid = 1, rev_hour = 10, rev_estimated_earnings = 10, rev_clicks = 1\<rparr>]
     [\<lparr>ad_set_name = ''Set (1)'', time_of_day = ''10:00'', amount_spent = Some 1, results = Some 1\<rparr>,
      \<lparr>ad_set_name = ''Set (1)'', time_of_day = ''noon'', amount_spent = Some 1, results = Some 1\<rparr>]
   = Inl ValueError"
  by code_simp

subsection \<open>Two ad set names with one campaign id\<close>

text \<open>
  Claim C1 says that no two output rows share a campaign id and hour. The name mapping of
  line 57 keeps one row for each distinct pair of campaign id and ad set name, so the left
  merge of line 59 repeats a merged row once for each ad set name of its campaign.
\<close>

theorem duplicate_ad_set_names_duplicate_rows:
  "metrics_pipeline
     [\<lparr>rev_campid = 1, rev_hour = 0, rev_estimated_earnings = 10, rev_clicks = 1\<rparr>]
     [\<lparr>ad_set_name = ''A (1)'', time_of_day = ''0:00'', amount_spent = Some 1, results = Some 1\<rparr>,
      \<lparr>ad_set_name = ''B (1)'', time_of_day = ''0:00'', amount_spent = Some 1, results = Some 1\<rparr>]
   = Inr [\<lparr>campid = 1, hour = 0, estimated_earnings = 10, total_clicks = 1,
            hourly_spend = 2, hourly_results = 2, campaign_name = Some ''A (1)'',
            hourly_revenue = 10, hourly_clicks = 1, hourly_rpc = 10, hourly_cpr = 1,
            profit = 8, roi = 400, profit_loss = ''Profit''\<rparr>,
          \<lparr>campid = 1, hour = 0, estimated_earnings = 10, total_clicks = 1,
            hourly_spend = 2, hourly_results = 2, campaign_name = Some ''B (1)'',
            hourly_revenue = 0, hourly_clicks = 0, hourly_rpc = 0, hourly_cpr = 1,
            profit = - 2, roi = - 100, profit_loss = ''Loss''\<rparr>]"
  by code_simp

text \<open>
  Claim C7 says that every campaign id gets one name, that of its first occurrence in the
  spend file. On the same input the mapping holds both names of campaign 1 and the output
  carries both.
\<close>

theorem campaign_name_mapping_two_names:
  "map_sum id campaign_name_mapping
     (load_spend_data
        [\<lparr>ad_set_name = ''A (1)'', time_of_day = ''0:00'', amount_spent = Some 1, results = Some 1\<rparr>,
         \<lparr>ad_set_name = ''B (1)'', time_of_day = ''0:00'', amount_spent = Some 1, results = Some 1\<rparr>])
   = Inr [(Some 1, ''A (1)''), (Some 1, ''B (1)'')] \<and>
   map_sum id (map (\<lambda>r. (campid r, hour r, campaign_name r)))
     (metrics_pipeline
        [\<lparr>rev_campid = 1, rev_hour = 0, rev_estimated_earnings = 10, rev_clicks = 1\<rparr>]
        [\<lparr>ad_set_name = ''A (1)'', time_of_day = ''0:00'', amount_spent = Some 1, results = Some 1\<rparr>,
         \<lparr>ad_set_name = ''B (1)'', time_of_day = ''0:00'', amount_spent = Some 1, results = Some 1\<rparr>])
   = Inr [(1, 0, Some ''A (1)''), (1, 0, Some ''B (1)'')]"
  by code_simp

text \<open>
  Claim C9 says that the differencing always subtracts the row of the same campaign at the
  next lower hour. The merged table is sorted by campaign id and hour with no key twice
  (\<open>sorted_keys_merged_data\<close>, \<open>distinct_keys_merged_data\<close>), but the differencing runs
  after the names were joined in: with two ad set names for campaign 1, the second row of
  each hour is differenced against the first row of the same hour, which gives 0.
\<close>

theorem differencing_against_same_hour:
  "map_sum id (map (\<lambda>r. (campid r, hour r, estimated_earnings r, hourly_revenue r)))
     (metrics_pipeline
        [\<lparr>rev_campid = 1, rev_hour = 0, rev_estimated_earnings = 10, rev_clicks = 1\<rparr>,
         \<lparr>rev_campid = 1, rev_hour = 1, rev_estimated_earnings = 30, rev_clicks = 4\<rparr>]
        [\<lparr>ad_set_name = ''A (1)'', time_of_day = ''0:00'', amount_spent = Some 1, results = Some 1\<rparr>,
         \<lparr>ad_set_name = ''B (1)'', time_of_day = ''1:00'', amount_spent = Some 1, results = Some 1\<rparr>])
   = Inr [(1, 0, 10, 10), (1, 0, 10, 0), (1, 1, 30, 20), (1, 1, 30, 0)]"
  by code_simp

end
